theory Spec2Isabelle
  imports Main
begin

section \<open>Data model\<close>

text \<open>
  The documents of the two collections the message handlers touch. Identifiers
  (\<open>_id\<close>, route parameters, user ids) are strings. A field that JavaScript may leave
  \<open>undefined\<close> is an \<open>option\<close>. Times are natural numbers. A string is the UTF-8
  encoding of the JavaScript string.

  A message record carries the paths of \<open>messageSchema\<close> (models/Message.js) and, next
  to them, the fields \<open>content\<close>, \<open>sender\<close> and \<open>metadata\<close>, which the HTTP handlers
  (routes/message.js) pass and query but the schema does not have: no stored document
  ever holds them (see \<open>strict\<close> below). Where a source name is taken in HOL the
  field has the suffix \<open>_m\<close>: \<open>oid\<close> is \<open>_id\<close>, \<open>id_m\<close> is \<open>id\<close>, \<open>text_m\<close> is \<open>text\<close>,
  \<open>group_m\<close> is \<open>group\<close>, \<open>user_m\<close> is \<open>user\<close>, \<open>type_m\<close> is \<open>type\<close>.
\<close>

type_synonym oid = string

record chat_user =
  cu_id :: string
  cu_name :: string
  cu_email :: string

record message =
  oid :: oid
  id_m :: "string option"
  text_m :: "string option"
  content :: "string option"
  group_m :: string
  sender :: "string option"
  user_m :: "chat_user option"
  type_m :: string
  mediaUrl :: "string option"
  mediaType :: "string option"
  metadata :: "string option"
  readBy :: "string list"
  deleted :: bool
  deletedBy :: "string option"
  edited :: bool
  editedAt :: "nat option"
  replyTo :: "string option"
  createdAt :: nat
  updatedAt :: nat

record group_doc =
  g_oid :: oid
  g_name :: string
  members :: "oid list"
  creator :: oid

record store =
  groups :: "group_doc list"
  messages :: "message list"

text \<open>
  \<open>req.user\<close> is the decoded token (middleware/auth.js). The login route signs the
  payload \<open>{ id: user._id, role: user.role }\<close>, so a token issued by this server has no
  \<open>name\<close>.
\<close>

record req_user =
  user_id :: string
  user_role :: string
  user_name :: "string option"

definition login_token_payload :: "oid \<Rightarrow> string \<Rightarrow> req_user" where
  "login_token_payload uid r = \<lparr>user_id = uid, user_role = r, user_name = None\<rparr>"

text \<open>
  What the handlers get from outside: the clock, the \<open>_id\<close> the database gives a new
  document, whether the database answers reads (a read that throws lands in the
  handler's \<open>catch\<close>) and whether it takes the write of a document that has passed
  validation.
\<close>

record env =
  now :: nat
  new_oid :: oid
  reads_ok :: bool
  save_ok :: "message \<Rightarrow> bool"

section \<open>JavaScript values\<close>

text \<open>Truthiness of a value that is a string or \<open>undefined\<close>.\<close>

fun truthy :: "string option \<Rightarrow> bool" where
  "truthy None = False"
| "truthy (Some s) = (s \<noteq> [])"

text \<open>\<open>ToString\<close> of a value that is a string or \<open>undefined\<close>.\<close>

definition js_string :: "string option \<Rightarrow> string" where
  "js_string q = (case q of None \<Rightarrow> ''undefined'' | Some s \<Rightarrow> s)"

text \<open>
  The numbers the list handler computes with are doubles with an integer value, the
  infinities and \<open>NaN\<close>. \<open>to_double\<close> rounds an integer to the nearest double (53
  significant bits, ties to even, infinity from \<open>2^1024\<close> on). Zero has no sign here:
  the handler only tests it for truthiness and order.
\<close>

datatype number = NaN | PosInf | NegInf | Fin int

fun bit_length :: "nat \<Rightarrow> nat" where
  "bit_length n = (if n = 0 then 0 else Suc (bit_length (n div 2)))"

declare bit_length.simps [simp del]

definition round53 :: "nat \<Rightarrow> nat" where
  "round53 n =
     (if n < 2 ^ 53 then n
      else (let e = bit_length n - 53;
                q = n div 2 ^ e;
                r = n mod 2 ^ e;
                h = 2 ^ (e - 1)
            in (if h < r \<or> (r = h \<and> odd q) then q + 1 else q) * 2 ^ e))"

definition to_double :: "int \<Rightarrow> number" where
  "to_double k =
     (let r = round53 (nat \<bar>k\<bar>)
      in if 2 ^ 1024 \<le> r then (if k < 0 then NegInf else PosInf)
         else Fin (if k < 0 then - int r else int r))"

text \<open>\<open>x - 1\<close> and \<open>x * y\<close> on such numbers.\<close>

definition js_pred :: "number \<Rightarrow> number" where
  "js_pred x = (case x of Fin k \<Rightarrow> to_double (k - 1) | _ \<Rightarrow> x)"

definition js_negative :: "number \<Rightarrow> bool" where
  "js_negative x = (case x of NegInf \<Rightarrow> True | Fin k \<Rightarrow> k < 0 | _ \<Rightarrow> False)"

definition js_times :: "number \<Rightarrow> number \<Rightarrow> number" where
  "js_times x y =
     (case (x, y) of
        (NaN, _) \<Rightarrow> NaN
      | (_, NaN) \<Rightarrow> NaN
      | (Fin a, Fin b) \<Rightarrow> to_double (a * b)
      | _ \<Rightarrow>
          if x = Fin 0 \<or> y = Fin 0 then NaN
          else if js_negative x = js_negative y then PosInf else NegInf)"

text \<open>
  \<open>Math.ceil(total / limit)\<close> for a count of documents \<open>total\<close>. A count is far below
  \<open>2^53\<close>, where the rounding of the quotient cannot reach an integer, so for a finite
  non-zero limit the result is the exact ceiling. The handler never has a limit of zero.
\<close>

definition ceil_div :: "int \<Rightarrow> int \<Rightarrow> int" where
  "ceil_div a b = - ((- a) div b)"

definition js_ceil_quot :: "int \<Rightarrow> number \<Rightarrow> number" where
  "js_ceil_quot a y =
     (case y of
        NaN \<Rightarrow> NaN
      | PosInf \<Rightarrow> Fin 0
      | NegInf \<Rightarrow> Fin 0
      | Fin b \<Rightarrow>
          if b = 0 then (if a = 0 then NaN else if a < 0 then NegInf else PosInf)
          else Fin (ceil_div a b))"

text \<open>
  \<open>parseInt(string)\<close> with no radix: leading white space is skipped, a sign is read, a
  \<open>0x\<close> prefix selects radix 16, and the longest prefix of digits is the value, rounded
  to a double; no digit gives \<open>NaN\<close>. White space is the language's \<open>WhiteSpace\<close> and
  \<open>LineTerminator\<close>, here by their UTF-8 bytes: U+0009 to U+000D, U+0020, U+00A0,
  U+1680, U+2000 to U+200A, U+2028, U+2029, U+202F, U+205F, U+3000 and U+FEFF.
\<close>

definition space_seqs :: "nat list list" where
  "space_seqs =
     [[9], [10], [11], [12], [13], [32], [194, 160], [225, 154, 128],
      [226, 128, 128], [226, 128, 129], [226, 128, 130], [226, 128, 131],
      [226, 128, 132], [226, 128, 133], [226, 128, 134], [226, 128, 135],
      [226, 128, 136], [226, 128, 137], [226, 128, 138],
      [226, 128, 168], [226, 128, 169], [226, 128, 175], [226, 129, 159],
      [227, 128, 128], [239, 187, 191]]"

text \<open>The number of bytes of the white-space character a string starts with, or 0.\<close>

definition space_len :: "string \<Rightarrow> nat" where
  "space_len s =
     (case find (\<lambda>p. take (length p) (map of_char s) = p) space_seqs of
        None \<Rightarrow> 0
      | Some p \<Rightarrow> length p)"

fun skip_space_fuel :: "nat \<Rightarrow> string \<Rightarrow> string" where
  "skip_space_fuel 0 s = s"
| "skip_space_fuel (Suc n) s =
     (if space_len s = 0 then s else skip_space_fuel n (drop (space_len s) s))"

text \<open>Every white-space character takes a byte, so \<open>length s\<close> rounds are enough.\<close>

definition skip_space :: "string \<Rightarrow> string" where
  "skip_space s = skip_space_fuel (length s) s"

definition digit_val :: "char \<Rightarrow> nat option" where
  "digit_val c =
     (let n = (of_char c :: nat) in
      if 48 \<le> n \<and> n \<le> 57 then Some (n - 48)
      else if 97 \<le> n \<and> n \<le> 122 then Some (n - 87)
      else if 65 \<le> n \<and> n \<le> 90 then Some (n - 55)
      else None)"

definition is_digit :: "nat \<Rightarrow> char \<Rightarrow> bool" where
  "is_digit r c = (case digit_val c of None \<Rightarrow> False | Some d \<Rightarrow> d < r)"

fun digits_value :: "nat \<Rightarrow> nat \<Rightarrow> string \<Rightarrow> nat" where
  "digits_value r acc [] = acc"
| "digits_value r acc (c # cs) =
     digits_value r (acc * r + (case digit_val c of None \<Rightarrow> 0 | Some d \<Rightarrow> d)) cs"

definition strip_sign :: "string \<Rightarrow> bool \<times> string" where
  "strip_sign s =
     (case s of
        [] \<Rightarrow> (False, [])
      | c # cs \<Rightarrow>
          if c = CHR ''-'' then (True, cs)
          else if c = CHR ''+'' then (False, cs)
          else (False, s))"

definition strip_prefix :: "string \<Rightarrow> nat \<times> string" where
  "strip_prefix s =
     (if take 2 s = ''0x'' \<or> take 2 s = ''0X'' then (16, drop 2 s) else (10, s))"

definition parseInt :: "string \<Rightarrow> number" where
  "parseInt s =
     (let (neg, s1) = strip_sign (skip_space s);
          (r, s2) = strip_prefix s1;
          z = takeWhile (is_digit r) s2
      in if z = [] then NaN
         else to_double (if neg then - int (digits_value r 0 z) else int (digits_value r 0 z)))"

text \<open>\<open>parseInt(q) || d\<close>: \<open>NaN\<close> and \<open>0\<close> are falsy.\<close>

definition parse_or :: "int \<Rightarrow> string option \<Rightarrow> number" where
  "parse_or d q =
     (case parseInt (js_string q) of
        NaN \<Rightarrow> Fin d
      | Fin k \<Rightarrow> if k = 0 then Fin d else Fin k
      | x \<Rightarrow> x)"

definition parse_page :: "string option \<Rightarrow> number" where
  "parse_page q = parse_or 1 q"

definition parse_limit :: "string option \<Rightarrow> number" where
  "parse_limit q = parse_or 50 q"

text \<open>\<open>(page - 1) * limit\<close>.\<close>

definition js_skip :: "number \<Rightarrow> number \<Rightarrow> number" where
  "js_skip pg lim = js_times (js_pred pg) lim"

text \<open>A natural number in decimal, as a client writes a page or a limit.\<close>

fun decimal :: "nat \<Rightarrow> string" where
  "decimal n =
     (if n < 10 then [char_of (48 + n)]
      else decimal (n div 10) @ [char_of (48 + n mod 10)])"

declare decimal.simps [simp del]

section \<open>Outcomes: response, broadcasts, log\<close>

record chat_payload =
  p_id :: "string option"
  p_text :: "string option"
  p_groupId :: string
  p_user :: chat_user
  p_type :: "string option"
  p_mediaUrl :: "string option"
  p_mediaType :: "string option"

record pagination =
  total :: int
  page :: number
  pages :: number
  limit :: number

datatype body =
  ErrorBody string
  | MessageBody message
  | SuccessBody
  | ListBody "message list" pagination

datatype event =
  NewMessage message
  | MessageEdited message
  | MessageDeleted oid oid
  | MessageRead oid oid
  | ChatMessage chat_payload nat

text \<open>
  The effects of one handler run, in the order they happen: a write the database
  accepted, \<open>io.to(room).emit(...)\<close>, an error written to the log.
\<close>

datatype effect =
  DbWrite message
  | Emit string event
  | LogError string

record outcome =
  out_store :: store
  out_effects :: "effect list"
  out_response :: "(nat \<times> body) option"

definition respond :: "store \<Rightarrow> effect list \<Rightarrow> nat \<Rightarrow> body \<Rightarrow> outcome" where
  "respond st effs status b =
     \<lparr>out_store = st, out_effects = effs, out_response = Some (status, b)\<rparr>"

text \<open>The \<open>catch\<close> branch of an HTTP handler: log, then answer 500.\<close>

definition caught :: "store \<Rightarrow> effect list \<Rightarrow> string \<Rightarrow> string \<Rightarrow> outcome" where
  "caught st effs logmsg errmsg =
     respond st (effs @ [LogError logmsg]) 500 (ErrorBody errmsg)"

section \<open>The schema (models/Message.js)\<close>

text \<open>The paths of \<open>messageSchema\<close>, with the ones \<open>timestamps: true\<close> and the model add.\<close>

definition schema_paths :: "string list" where
  "schema_paths =
     [''_id'', ''id'', ''text'', ''group'', ''user'', ''type'', ''mediaUrl'', ''mediaType'',
      ''readBy'', ''deleted'', ''deletedBy'', ''edited'', ''editedAt'', ''replyTo'',
      ''createdAt'', ''updatedAt'']"

text \<open>
  A document is built from the schema's paths only: what a handler passes under another
  name (\<open>content\<close>, \<open>sender\<close>, \<open>metadata\<close>) is dropped.
\<close>

definition strict :: "message \<Rightarrow> message" where
  "strict m = m\<lparr>content := None, sender := None, metadata := None\<rparr>"

text \<open>
  Validation before every write: \<open>id\<close>, \<open>text\<close> and \<open>group\<close> are \<open>required\<close> (a missing
  or empty string fails), so are \<open>id\<close>, \<open>name\<close> and \<open>email\<close> of an embedded \<open>user\<close>, and
  \<open>type\<close> is one of the \<open>enum\<close>.
\<close>

definition type_enum :: "string list" where
  "type_enum = [''text'', ''image'', ''file'', ''system'']"

definition schema_valid :: "message \<Rightarrow> bool" where
  "schema_valid m =
     (truthy (id_m m) \<and> truthy (text_m m) \<and> group_m m \<noteq> []
      \<and> (case user_m m of
            None \<Rightarrow> True
          | Some cu \<Rightarrow> cu_id cu \<noteq> [] \<and> cu_name cu \<noteq> [] \<and> cu_email cu \<noteq> [])
      \<and> type_m m \<in> set type_enum)"

text \<open>A write goes through when the document is valid and the database takes it.\<close>

definition accepts :: "env \<Rightarrow> message \<Rightarrow> bool" where
  "accepts e m = (schema_valid m \<and> save_ok e m)"

text \<open>
  \<open>document.populate(path, ...)\<close> throws (\<open>None\<close>) for a path the schema does not have.
  Otherwise it joins display fields into the in-memory document and leaves the fields
  of the record as they are.
\<close>

definition populate :: "string \<Rightarrow> message \<Rightarrow> message option" where
  "populate path m = (if path \<in> set schema_paths then Some m else None)"

section \<open>The message store\<close>

definition findGroup :: "store \<Rightarrow> oid \<Rightarrow> group_doc option" where
  "findGroup st gid = find (\<lambda>g. g_oid g = gid) (groups st)"

definition findOne :: "store \<Rightarrow> (message \<Rightarrow> bool) \<Rightarrow> message option" where
  "findOne st q = find q (messages st)"

definition findById :: "store \<Rightarrow> oid \<Rightarrow> message option" where
  "findById st mid = findOne st (\<lambda>m. oid m = mid)"

text \<open>The filter \<open>{ group: groupId, deleted: false }\<close> of the list handler.\<close>

definition visible_in :: "oid \<Rightarrow> message \<Rightarrow> bool" where
  "visible_in gid m = (group_m m = gid \<and> \<not> deleted m)"

text \<open>
  \<open>Message.find(...).sort({ createdAt: 1 }).skip(skip).limit(limit)\<close>. The sort is
  stable, so messages with equal \<open>createdAt\<close> stay in insertion order. The database
  takes a skip and a limit that are 64-bit integers, the skip not negative; for
  anything else the query throws (\<open>None\<close>). The driver sends the absolute value of a
  negative limit, and a limit of zero is no limit.
\<close>

definition find_page :: "store \<Rightarrow> oid \<Rightarrow> number \<Rightarrow> number \<Rightarrow> message list option" where
  "find_page st gid skip lim =
     (case (skip, lim) of
        (Fin s, Fin l) \<Rightarrow>
          if 0 \<le> s \<and> s < 2 ^ 63 \<and> \<bar>l\<bar> < 2 ^ 63
          then (let vis = sort_key createdAt (filter (visible_in gid) (messages st))
                in Some (if l = 0 then drop (nat s) vis
                         else take (nat \<bar>l\<bar>) (drop (nat s) vis)))
          else None
      | _ \<Rightarrow> None)"

definition countDocuments :: "store \<Rightarrow> oid \<Rightarrow> int" where
  "countDocuments st gid = int (length (filter (visible_in gid) (messages st)))"

text \<open>
  \<open>document.save()\<close> of a loaded, modified document: it is validated, the stored
  document with the same \<open>_id\<close> takes the changes, and \<open>timestamps: true\<close> stamps
  \<open>updatedAt\<close>. Within one handler run the loaded copy is the stored document, so
  taking the changes is taking the copy.
\<close>

definition replace_doc :: "message \<Rightarrow> message list \<Rightarrow> message list" where
  "replace_doc m ms = map (\<lambda>x. if oid x = oid m then m else x) ms"

definition save :: "env \<Rightarrow> message \<Rightarrow> store \<Rightarrow> (message \<times> store \<times> effect list) option" where
  "save e m st =
     (if accepts e m
      then (let m' = m\<lparr>updatedAt := now e\<rparr>
            in Some (m', st\<lparr>messages := replace_doc m' (messages st)\<rparr>, [DbWrite m']))
      else None)"

text \<open>\<open>new Message(fields).save()\<close> and \<open>Message.create(fields)\<close>: a new document.\<close>

definition insert_doc :: "env \<Rightarrow> message \<Rightarrow> store \<Rightarrow> (message \<times> store \<times> effect list) option" where
  "insert_doc e given st =
     (let m = strict given
      in if accepts e m
         then Some (m, st\<lparr>messages := messages st @ [m]\<rparr>, [DbWrite m])
         else None)"

subsection \<open>Document methods\<close>

text \<open>
  \<open>markAsRead\<close>: the in-memory part (the guard and the \<open>push\<close>), then the \<open>save\<close>.
  A method returns the document as the caller holds it afterwards, the store and the
  writes made; \<open>None\<close> is a rejected \<open>save\<close> (the method throws).
\<close>

definition markAsRead_local :: "string option \<Rightarrow> message \<Rightarrow> message option" where
  "markAsRead_local userName m =
     (case userName of
        None \<Rightarrow> None
      | Some u \<Rightarrow>
          if u \<noteq> [] \<and> u \<notin> set (readBy m)
          then Some (m\<lparr>readBy := readBy m @ [u]\<rparr>)
          else None)"

definition markAsRead ::
  "env \<Rightarrow> string option \<Rightarrow> message \<Rightarrow> store \<Rightarrow> (message \<times> store \<times> effect list) option" where
  "markAsRead e userName m st =
     (case markAsRead_local userName m of
        None \<Rightarrow> Some (m, st, [])
      | Some m' \<Rightarrow> save e m' st)"

definition softDelete ::
  "env \<Rightarrow> oid \<Rightarrow> message \<Rightarrow> store \<Rightarrow> (message \<times> store \<times> effect list) option" where
  "softDelete e userId m st = save e (m\<lparr>deleted := True, deletedBy := Some userId\<rparr>) st"


section \<open>HTTP handlers (routes/message.js)\<close>

text \<open>
  Every handler takes the environment, the store, \<open>req.user\<close> and the request's
  parameters, and returns the store, the effects in order and the response.
\<close>

subsection \<open>GET /:groupId/messages\<close>

text \<open>\<open>message.readBy.includes(req.user.name)\<close>.\<close>

definition includes_name :: "message \<Rightarrow> string option \<Rightarrow> bool" where
  "includes_name m n = (case n of None \<Rightarrow> False | Some u \<Rightarrow> u \<in> set (readBy m))"

text \<open>
  \<open>Promise.all(messages.map(m => m.readBy.includes(name) ? null : m.markAsRead(name)))\<close>:
  every \<open>markAsRead\<close> is started; the result is the documents, the store with the
  accepted saves, the writes, and whether no save was rejected.
\<close>

fun mark_all ::
  "env \<Rightarrow> string option \<Rightarrow> message list \<Rightarrow> store \<Rightarrow> message list \<times> store \<times> effect list \<times> bool" where
  "mark_all e n [] st = ([], st, [], True)"
| "mark_all e n (m # ms) st =
     (if includes_name m n
      then (case mark_all e n ms st of (ds, st', w, ok) \<Rightarrow> (m # ds, st', w, ok))
      else (case markAsRead e n m st of
              None \<Rightarrow> (case mark_all e n ms st of (ds, st', w, ok) \<Rightarrow> (m # ds, st', w, False))
            | Some (m', st1, w1) \<Rightarrow>
                (case mark_all e n ms st1 of (ds, st', w, ok) \<Rightarrow> (m' # ds, st', w1 @ w, ok))))"

definition get_messages ::
  "env \<Rightarrow> store \<Rightarrow> req_user \<Rightarrow> oid \<Rightarrow> string option \<Rightarrow> string option \<Rightarrow> outcome" where
  "get_messages e st u gid qpage qlimit =
     (let pg = parse_page qpage;
          lim = parse_limit qlimit;
          skip = js_skip pg lim
      in if \<not> reads_ok e
         then caught st [] ''Error fetching messages:'' ''Failed to fetch messages''
         else case findGroup st gid of
           None \<Rightarrow> respond st [] 404 (ErrorBody ''Group not found'')
         | Some g \<Rightarrow>
             if user_id u \<notin> set (members g)
             then respond st [] 403 (ErrorBody ''You are not a member of this group'')
             else (case find_page st gid skip lim of
               None \<Rightarrow> caught st [] ''Error fetching messages:'' ''Failed to fetch messages''
             | Some msgs \<Rightarrow>
                 (case mark_all e (user_name u) msgs st of
                    (ds, st', w, ok) \<Rightarrow>
                      if ok
                      then respond st' w 200
                             (ListBody ds \<lparr>total = countDocuments st gid, page = pg,
                                pages = js_ceil_quot (countDocuments st gid) lim, limit = lim\<rparr>)
                      else caught st' w ''Error fetching messages:''
                             ''Failed to fetch messages'')))"

subsection \<open>POST /:groupId/messages\<close>

text \<open>The fields \<open>Message.create\<close> is given, with the schema's defaults.\<close>

definition http_message ::
  "env \<Rightarrow> req_user \<Rightarrow> oid \<Rightarrow> string option \<Rightarrow> string option \<Rightarrow> string option \<Rightarrow> string option
     \<Rightarrow> message" where
  "http_message e u gid b_content b_type b_metadata b_replyTo =
     \<lparr>oid = new_oid e, id_m = None, text_m = None, content = b_content, group_m = gid,
      sender = Some (user_id u), user_m = None,
      type_m = (case b_type of None \<Rightarrow> ''text'' | Some t \<Rightarrow> t),
      mediaUrl = None, mediaType = None, metadata = b_metadata,
      readBy = [user_id u], deleted = False, deletedBy = None, edited = False,
      editedAt = None, replyTo = b_replyTo, createdAt = now e, updatedAt = now e\<rparr>"

text \<open>The filter \<open>{ _id: replyTo, group: groupId, deleted: false }\<close>.\<close>

definition parent_filter :: "string \<Rightarrow> oid \<Rightarrow> message \<Rightarrow> bool" where
  "parent_filter r gid m = (oid m = r \<and> group_m m = gid \<and> \<not> deleted m)"

text \<open>From \<open>Message.create\<close> over the two \<open>populate\<close> calls to the response.\<close>

definition create_and_emit :: "env \<Rightarrow> store \<Rightarrow> oid \<Rightarrow> message \<Rightarrow> outcome" where
  "create_and_emit e st gid given =
     (case insert_doc e given st of
        None \<Rightarrow> caught st [] ''Error sending message:'' ''Failed to send message''
      | Some (m, st', w) \<Rightarrow>
          (case Option.bind (populate ''sender'' m) (populate ''replyTo'') of
             None \<Rightarrow> caught st' w ''Error sending message:'' ''Failed to send message''
           | Some m' \<Rightarrow> respond st' (w @ [Emit gid (NewMessage m')]) 201 (MessageBody m')))"

definition post_message ::
  "env \<Rightarrow> store \<Rightarrow> req_user \<Rightarrow> oid \<Rightarrow> string option \<Rightarrow> string option \<Rightarrow> string option
     \<Rightarrow> string option \<Rightarrow> outcome" where
  "post_message e st u gid b_content b_type b_metadata b_replyTo =
     (if \<not> reads_ok e
      then caught st [] ''Error sending message:'' ''Failed to send message''
      else case findGroup st gid of
        None \<Rightarrow> respond st [] 404 (ErrorBody ''Group not found'')
      | Some g \<Rightarrow>
          if user_id u \<notin> set (members g)
          then respond st [] 403 (ErrorBody ''You are not a member of this group'')
          else if truthy b_replyTo
                  \<and> findOne st (parent_filter (js_string b_replyTo) gid) = None
          then respond st [] 404 (ErrorBody ''Parent message not found'')
          else create_and_emit e st gid
                 (http_message e u gid b_content b_type b_metadata b_replyTo))"

subsection \<open>PUT and DELETE /:groupId/messages/:messageId\<close>

text \<open>The filter \<open>{ _id: messageId, group: groupId, sender: req.user.id, deleted: false }\<close>.\<close>

definition own_filter :: "oid \<Rightarrow> oid \<Rightarrow> oid \<Rightarrow> message \<Rightarrow> bool" where
  "own_filter mid gid uid m =
     (oid m = mid \<and> group_m m = gid \<and> sender m = Some uid \<and> \<not> deleted m)"


definition delete_message :: "env \<Rightarrow> store \<Rightarrow> req_user \<Rightarrow> oid \<Rightarrow> oid \<Rightarrow> outcome" where
  "delete_message e st u gid mid =
     (if \<not> reads_ok e
      then caught st [] ''Error deleting message:'' ''Failed to delete message''
      else case findOne st (own_filter mid gid (user_id u)) of
        None \<Rightarrow> respond st [] 404 (ErrorBody ''Message not found or unauthorized'')
      | Some m \<Rightarrow>
          (case softDelete e (user_id u) m st of
             None \<Rightarrow> caught st [] ''Error deleting message:'' ''Failed to delete message''
           | Some (m', st', w) \<Rightarrow>
               respond st' (w @ [Emit gid (MessageDeleted mid (user_id u))]) 200 SuccessBody))"

subsection \<open>POST /:groupId/messages/:messageId/read\<close>

definition post_read :: "env \<Rightarrow> store \<Rightarrow> req_user \<Rightarrow> oid \<Rightarrow> oid \<Rightarrow> outcome" where
  "post_read e st u gid mid =
     (if \<not> reads_ok e
      then caught st [] ''Error marking message as read:'' ''Failed to mark message as read''
      else case findGroup st gid of
        None \<Rightarrow> respond st [] 404 (ErrorBody ''Group not found'')
      | Some g \<Rightarrow>
          if user_id u \<notin> set (members g)
          then respond st [] 403 (ErrorBody ''You are not a member of this group'')
          else (case findById st mid of
            None \<Rightarrow> respond st [] 404 (ErrorBody ''Message not found'')
          | Some m \<Rightarrow>
              (case markAsRead e (Some (user_id u)) m st of
                 None \<Rightarrow> caught st [] ''Error marking message as read:''
                           ''Failed to mark message as read''
               | Some (m', st', w) \<Rightarrow>
                   respond st' (w @ [Emit gid (MessageRead mid (user_id u))]) 200
                     SuccessBody)))"

section \<open>Socket handler for \<open>chat message\<close> (sockets/socketManager.js)\<close>

text \<open>
  \<open>new Message({ id, text, group, user, type: data.type || 'text', mediaUrl, mediaType })\<close>:
  no \<open>readBy\<close> is given, so the array path starts empty.
\<close>

definition socket_message :: "env \<Rightarrow> chat_payload \<Rightarrow> message" where
  "socket_message e d =
     \<lparr>oid = new_oid e, id_m = p_id d, text_m = p_text d, content = None,
      group_m = p_groupId d, sender = None, user_m = Some (p_user d),
      type_m = (if truthy (p_type d) then js_string (p_type d) else ''text''),
      mediaUrl = p_mediaUrl d, mediaType = p_mediaType d, metadata = None,
      readBy = [], deleted = False, deletedBy = None, edited = False,
      editedAt = None, replyTo = None, createdAt = now e, updatedAt = now e\<rparr>"

definition chat_message :: "env \<Rightarrow> store \<Rightarrow> chat_payload \<Rightarrow> outcome" where
  "chat_message e st d =
     (case insert_doc e (socket_message e d) st of
        None \<Rightarrow>
          \<lparr>out_store = st, out_effects = [LogError ''Error saving message:''],
           out_response = None\<rparr>
      | Some (m, st', w) \<Rightarrow>
          \<lparr>out_store = st',
           out_effects = w @ [Emit (p_groupId d) (ChatMessage d (createdAt m))],
           out_response = None\<rparr>)"

section \<open>Reading the effects\<close>

fun is_emit :: "effect \<Rightarrow> bool" where
  "is_emit (Emit room ev) = True"
| "is_emit x = False"

definition emits :: "effect list \<Rightarrow> effect list" where
  "emits effs = filter is_emit effs"

text \<open>No broadcast happens before a write has been accepted.\<close>

fun no_emit_before_write :: "effect list \<Rightarrow> bool" where
  "no_emit_before_write [] = True"
| "no_emit_before_write (DbWrite m # effs) = True"
| "no_emit_before_write (Emit room ev # effs) = False"
| "no_emit_before_write (LogError s # effs) = no_emit_before_write effs"

text \<open>
  What \<open>markAsRead\<close> with an accepted \<open>save\<close> makes of a document: the name is
  appended and \<open>updatedAt\<close> is stamped when the guard lets it through.
\<close>

definition mark_doc :: "env \<Rightarrow> string option \<Rightarrow> message \<Rightarrow> message" where
  "mark_doc e n m =
     (case markAsRead_local n m of
        None \<Rightarrow> m
      | Some m' \<Rightarrow> m'\<lparr>updatedAt := now e\<rparr>)"

text \<open>The user who sent a stored message: \<open>user.id\<close> of the schema.\<close>

definition author :: "message \<Rightarrow> string option" where
  "author m = map_option cu_id (user_m m)"

text \<open>An ASCII decimal digit.\<close>

definition is_dec :: "char \<Rightarrow> bool" where
  "is_dec c = (48 \<le> (of_char c :: nat) \<and> (of_char c :: nat) \<le> 57)"

section \<open>Interleaved mark-read calls\<close>

text \<open>
  A mark-read call suspends twice: at \<open>await Message.findById(...)\<close>, which hands it
  its own copy of the document, and at \<open>await this.save()\<close> inside \<open>markAsRead\<close>.
  Between the two, other calls run. \<open>Load i\<close> is call \<open>i\<close> receiving its copy;
  \<open>MarkSave i\<close> is its \<open>markAsRead\<close>: the guard and the \<open>push\<close> on the copy, then the
  write. Call \<open>i\<close> is made by user \<open>us ! i\<close>. \<open>save\<close> after \<open>readBy.push(userName)\<close> sends
  the pushed element, which the database appends to the array it holds. The saves are
  accepted.
\<close>

datatype step = Load nat | MarkSave nat

record race_state =
  stored :: message
  held :: "nat \<Rightarrow> message option"

fun race_step :: "string list \<Rightarrow> race_state \<Rightarrow> step \<Rightarrow> race_state" where
  "race_step us s (Load i) = s\<lparr>held := (held s)(i \<mapsto> stored s)\<rparr>"
| "race_step us s (MarkSave i) =
     (if i < length us
      then (case held s i of
              None \<Rightarrow> s
            | Some m \<Rightarrow>
                (case markAsRead_local (Some (us ! i)) m of
                   None \<Rightarrow> s
                 | Some m' \<Rightarrow>
                     s\<lparr>stored := (stored s)\<lparr>readBy := readBy (stored s) @ [us ! i]\<rparr>\<rparr>))
      else s)"





section \<open>Example data\<close>

definition ex_env :: env where
  "ex_env = \<lparr>now = 7, new_oid = ''m9'', reads_ok = True, save_ok = (\<lambda>_. True)\<rparr>"

definition ex_env_down :: env where
  "ex_env_down = \<lparr>now = 7, new_oid = ''m9'', reads_ok = True, save_ok = (\<lambda>_. False)\<rparr>"

text \<open>The environment of the run that stored \<open>m1\<close> below.\<close>

definition ex_env1 :: env where
  "ex_env1 = \<lparr>now = 1, new_oid = ''m1'', reads_ok = True, save_ok = (\<lambda>_. True)\<rparr>"

definition ex_g1 :: group_doc where
  "ex_g1 = \<lparr>g_oid = ''g1'', g_name = ''one'', members = [''u1'', ''u3''], creator = ''u1''\<rparr>"

definition ex_g2 :: group_doc where
  "ex_g2 = \<lparr>g_oid = ''g2'', g_name = ''two'', members = [''u2''], creator = ''u2''\<rparr>"

text \<open>What user \<open>u1\<close> sends to group \<open>g1\<close> over the socket.\<close>

definition ex_payload :: chat_payload where
  "ex_payload = \<lparr>p_id = Some ''c1'', p_text = Some ''hello'', p_groupId = ''g1'',
                  p_user = \<lparr>cu_id = ''u1'', cu_name = ''Ann'', cu_email = ''a@x''\<rparr>,
                  p_type = None, p_mediaUrl = None, p_mediaType = None\<rparr>"

text \<open>That message as the socket handler stored it at time 1 under \<open>_id\<close> \<open>m1\<close>.\<close>

definition ex_m1 :: message where
  "ex_m1 = \<lparr>oid = ''m1'', id_m = Some ''c1'', text_m = Some ''hello'', content = None,
             group_m = ''g1'', sender = None,
             user_m = Some \<lparr>cu_id = ''u1'', cu_name = ''Ann'', cu_email = ''a@x''\<rparr>,
             type_m = ''text'', mediaUrl = None, mediaType = None, metadata = None,
             readBy = [], deleted = False, deletedBy = None, edited = False,
             editedAt = None, replyTo = None, createdAt = 1, updatedAt = 1\<rparr>"

text \<open>
  A message of \<open>u2\<close> in group \<open>g2\<close>, of which \<open>u1\<close> and \<open>u3\<close> are not members, stored
  the same way.
\<close>

definition ex_m2 :: message where
  "ex_m2 = \<lparr>oid = ''m2'', id_m = Some ''c2'', text_m = Some ''other'', content = None,
             group_m = ''g2'', sender = None,
             user_m = Some \<lparr>cu_id = ''u2'', cu_name = ''Bob'', cu_email = ''b@x''\<rparr>,
             type_m = ''text'', mediaUrl = None, mediaType = None, metadata = None,
             readBy = [], deleted = False, deletedBy = None, edited = False,
             editedAt = None, replyTo = None, createdAt = 2, updatedAt = 2\<rparr>"

definition ex_store0 :: store where
  "ex_store0 = \<lparr>groups = [ex_g1, ex_g2], messages = []\<rparr>"

definition ex_store :: store where
  "ex_store = \<lparr>groups = [ex_g1, ex_g2], messages = [ex_m1, ex_m2]\<rparr>"

definition ex_u1 :: req_user where
  "ex_u1 = login_token_payload ''u1'' ''user''"

definition ex_named :: req_user where
  "ex_named = \<lparr>user_id = ''u3'', user_role = ''user'', user_name = Some ''Cy''\<rparr>"

definition ex_u3 :: req_user where
  "ex_u3 = login_token_payload ''u3'' ''user''"


section \<open>Facts about numbers and parsing\<close>

lemma round53_small: "n < 2 ^ 53 \<Longrightarrow> round53 n = n"
  by (simp add: round53_def)

lemma to_double_exact: "\<bar>k\<bar> < 2 ^ 53 \<Longrightarrow> to_double k = Fin k"
proof -
  assume a: "\<bar>k\<bar> < 2 ^ 53"
  then have n: "nat \<bar>k\<bar> < 2 ^ 53"
    by (simp add: nat_less_iff)
  have "(2::nat) ^ 53 \<le> 2 ^ 1024" by (rule power_increasing) simp_all
  with n have "\<not> (2::nat) ^ 1024 \<le> nat \<bar>k\<bar>" by linarith
  with n show ?thesis
    by (auto simp: to_double_def round53_small Let_def)
qed

lemma is_dec_char_of: "d < (10::nat) \<Longrightarrow> is_dec (char_of (48 + d))"
  by (simp add: is_dec_def)

lemma decimal_is_dec: "\<forall>c \<in> set (decimal n). is_dec c"
proof (induction n rule: decimal.induct)
  case (1 n)
  show ?case
  proof (cases "n < 10")
    case True
    then show ?thesis by (subst decimal.simps) (simp add: is_dec_char_of)
  next
    case False
    with 1 have "\<forall>c \<in> set (decimal (n div 10)). is_dec c" by simp
    with False show ?thesis
      by (subst decimal.simps) (simp add: is_dec_char_of)
  qed
qed

lemma decimal_nonempty: "decimal n \<noteq> []"
  by (subst decimal.simps) simp

lemma digits_value_snoc:
  "digits_value r acc (xs @ [c]) =
     digits_value r acc xs * r + (case digit_val c of None \<Rightarrow> 0 | Some d \<Rightarrow> d)"
  by (induction xs arbitrary: acc) simp_all

lemma digit_val_char_of: "d < (10::nat) \<Longrightarrow> digit_val (char_of (48 + d)) = Some d"
  by (simp add: digit_val_def Let_def)

lemma digits_value_decimal: "digits_value 10 0 (decimal n) = n"
proof (induction n rule: decimal.induct)
  case (1 n)
  show ?case
  proof (cases "n < 10")
    case True
    then show ?thesis by (subst decimal.simps) (simp add: digit_val_char_of)
  next
    case False
    with 1 have "digits_value 10 0 (decimal (n div 10)) = n div 10" by simp
    with False show ?thesis
      by (subst decimal.simps) (simp add: digits_value_snoc digit_val_char_of)
  qed
qed

lemma space_len_dec: "is_dec c \<Longrightarrow> space_len (c # cs) = 0"
  by (auto simp: space_len_def space_seqs_def is_dec_def)

lemma skip_space_dec: "is_dec c \<Longrightarrow> skip_space (c # cs) = c # cs"
  by (simp add: skip_space_def space_len_dec)

lemma strip_sign_dec: "is_dec c \<Longrightarrow> strip_sign (c # cs) = (False, c # cs)"
  by (auto simp: strip_sign_def is_dec_def)

lemma strip_prefix_dec: "\<forall>c \<in> set s. is_dec c \<Longrightarrow> strip_prefix s = (10, s)"
proof -
  assume a: "\<forall>c \<in> set s. is_dec c"
  have x: "\<not> is_dec CHR ''x''" "\<not> is_dec CHR ''X''" by (simp_all add: is_dec_def)
  have "take 2 s \<noteq> ''0x''" "take 2 s \<noteq> ''0X''"
    using a x by (metis in_set_takeD list.set_intros(1,2))+
  then show ?thesis by (simp add: strip_prefix_def)
qed

lemma is_digit_dec: "is_dec c \<Longrightarrow> is_digit 10 c"
  by (auto simp: is_digit_def digit_val_def is_dec_def Let_def)

lemma parseInt_decimal: "parseInt (decimal n) = to_double (int n)"
proof -
  obtain c cs where s: "decimal n = c # cs"
    using decimal_nonempty[of n] by (cases "decimal n") auto
  have all: "\<forall>c \<in> set (decimal n). is_dec c" by (rule decimal_is_dec)
  with s have c: "is_dec c" by simp
  have tw: "takeWhile (is_digit 10) (decimal n) = decimal n"
    using all by (simp add: takeWhile_eq_all_conv is_digit_dec)
  have "parseInt (decimal n) = to_double (int (digits_value 10 0 (decimal n)))"
    unfolding parseInt_def s skip_space_dec[OF c] strip_sign_dec[OF c]
    using strip_prefix_dec[OF all] tw s by simp
  then show ?thesis by (simp add: digits_value_decimal)
qed

lemma parse_or_decimal:
  "0 < n \<Longrightarrow> int n < 2 ^ 53 \<Longrightarrow> parse_or d (Some (decimal n)) = Fin (int n)"
  by (simp add: parse_or_def js_string_def parseInt_decimal to_double_exact)

lemmas parse_defs = parse_page_def parse_limit_def parse_or_def parseInt_def
  js_string_def strip_sign_def strip_prefix_def is_digit_def digit_val_def
  skip_space_def space_len_def space_seqs_def js_skip_def js_pred_def js_times_def

lemma parse_or_default:
  "parse_or d None = Fin d" "parse_or d (Some ''0'') = Fin d"
  "parse_or d (Some ''abc'') = Fin d" "parse_or d (Some []) = Fin d"
  by (simp_all add: parse_defs to_double_exact)


lemma js_skip_exact:
  assumes "1 \<le> p" and "1 \<le> l" and "p * l < 2 ^ 53"
  shows "js_skip (Fin p) (Fin l) = Fin ((p - 1) * l)"
    and "0 \<le> (p - 1) * l" and "(p - 1) * l < 2 ^ 63" and "\<bar>l\<bar> < 2 ^ 63"
proof -
  have le: "(p - 1) * l \<le> p * l" using assms(2) by (simp add: mult_right_mono)
  have "p * 1 \<le> p * l" using assms(1,2) by (intro mult_left_mono) simp_all
  then have p: "p < 2 ^ 53" using assms(3) by simp
  have "1 * l \<le> p * l" using assms(1,2) by (intro mult_right_mono) simp_all
  then have l: "l < 2 ^ 53" using assms(3) by simp
  show nn: "0 \<le> (p - 1) * l" using assms(1,2) by simp
  have big: "(2::int) ^ 53 \<le> 2 ^ 63" by (rule power_increasing) simp_all
  from le assms(3) big show "(p - 1) * l < 2 ^ 63" by linarith
  from l big assms(2) show "\<bar>l\<bar> < 2 ^ 63" by simp
  have a: "\<bar>p - 1\<bar> < 2 ^ 53" using p assms(1) by simp
  have b: "\<bar>(p - 1) * l\<bar> < 2 ^ 53" using le assms(3) nn by simp
  show "js_skip (Fin p) (Fin l) = Fin ((p - 1) * l)"
    by (simp add: js_skip_def js_pred_def js_times_def to_double_exact[OF a]
          to_double_exact[OF b])
qed

section \<open>Facts about the store\<close>

lemmas ex_defs =
  ex_env_def ex_env1_def ex_env_down_def ex_g1_def ex_g2_def ex_m1_def ex_m2_def
  ex_store0_def ex_store_def ex_u1_def ex_u3_def ex_named_def ex_payload_def
  login_token_payload_def

lemmas schema_defs = accepts_def schema_valid_def type_enum_def strict_def Let_def

lemma find_replace_doc:
  "\<exists>x \<in> set ms. oid x = oid m \<Longrightarrow> find (\<lambda>x. oid x = oid m) (replace_doc m ms) = Some m"
  by (induction ms) (auto simp: replace_doc_def)

lemma findOne_Some:
  "findOne st q = Some m \<Longrightarrow> m \<in> set (messages st) \<and> q m"
  unfolding findOne_def by (auto simp: find_Some_iff)

lemma findOne_None:
  "(findOne st q = None) = (\<forall>m \<in> set (messages st). \<not> q m)"
  unfolding findOne_def by (auto simp: find_None_iff)

lemma save_accepted:
  "accepts e m \<Longrightarrow> \<exists>x \<in> set (messages st). oid x = oid m \<Longrightarrow>
     save e m st = Some (m\<lparr>updatedAt := now e\<rparr>,
                         st\<lparr>messages := replace_doc (m\<lparr>updatedAt := now e\<rparr>) (messages st)\<rparr>,
                         [DbWrite (m\<lparr>updatedAt := now e\<rparr>)])
     \<and> findById (st\<lparr>messages := replace_doc (m\<lparr>updatedAt := now e\<rparr>) (messages st)\<rparr>) (oid m)
         = Some (m\<lparr>updatedAt := now e\<rparr>)"
  using find_replace_doc[of "messages st" "m\<lparr>updatedAt := now e\<rparr>"]
  by (simp add: save_def findById_def findOne_def Let_def)

lemma populate_sender: "populate ''sender'' m = None"
  by (simp add: populate_def schema_paths_def)

lemma insert_doc_strict:
  "insert_doc e given st = Some (m, st', w) \<Longrightarrow>
     sender m = None \<and> content m = None \<and> metadata m = None \<and> schema_valid m
     \<and> messages st' = messages st @ [m]"
  by (auto simp: insert_doc_def strict_def accepts_def Let_def split: if_splits)

section \<open>Mark-read calls on one message\<close>

lemma pair_step:
  "stored (race_step us (race_step us s (Load i)) (MarkSave i)) =
     (if i < length us \<and> us ! i \<noteq> [] \<and> us ! i \<notin> set (readBy (stored s))
      then (stored s)\<lparr>readBy := readBy (stored s) @ [us ! i]\<rparr> else stored s)"
  by (simp add: markAsRead_local_def)

text \<open>One call run alone is \<open>markAsRead\<close> on the stored document.\<close>

lemma markAsRead_as_serial_call:
  "markAsRead e (Some u) m st = Some (m', st', w) \<Longrightarrow>
     readBy m' =
       readBy (stored (race_step [u]
                 (race_step [u] \<lparr>stored = m, held = (\<lambda>_. None)\<rparr> (Load 0)) (MarkSave 0)))"
  unfolding pair_step
  by (auto simp: markAsRead_def markAsRead_local_def save_def Let_def split: if_splits)






















section \<open>Editing a message\<close>




section \<open>Deleting a message\<close>

text \<open>
  The delete and edit handlers filter on \<open>sender\<close>, which is no path of the schema: a
  stored document has no \<open>sender\<close>, so the filter finds nothing.
\<close>

lemma no_sender_no_match:
  "\<forall>m \<in> set (messages st). sender m = None \<Longrightarrow>
     findOne st (own_filter mid gid uid) = None"
  by (auto simp: findOne_None own_filter_def)

lemma delete_message_no_sender:
  "\<forall>m \<in> set (messages st). sender m = None \<Longrightarrow> reads_ok e \<Longrightarrow>
     delete_message e st u gid mid =
       respond st [] 404 (ErrorBody ''Message not found or unauthorized'')"
  by (simp add: delete_message_def no_sender_no_match)

text \<open>
  C6 at a concrete request. \<open>m1\<close> is the message the socket handler stored for \<open>u1\<close>;
  it is in group \<open>g1\<close> and not deleted. \<open>u1\<close> asks to delete it and is answered with
  404; the store is unchanged, so the message is not marked deleted.
\<close>

theorem delete_message_by_author:
  "messages (out_store (chat_message ex_env1 ex_store0 ex_payload)) = [ex_m1]
   \<and> findById ex_store ''m1'' = Some ex_m1
   \<and> author ex_m1 = Some (user_id ex_u1) \<and> group_m ex_m1 = ''g1'' \<and> \<not> deleted ex_m1
   \<and> delete_message ex_env ex_store ex_u1 ''g1'' ''m1''
       = respond ex_store [] 404 (ErrorBody ''Message not found or unauthorized'')"
  by (simp add: ex_defs chat_message_def insert_doc_def socket_message_def schema_defs
        findById_def findOne_def author_def delete_message_def own_filter_def)

section \<open>Replying to a message\<close>

text \<open>
  The fields the HTTP create passes have no \<open>id\<close> and no \<open>text\<close>, which the schema
  requires: validation rejects every such document, and the handler answers 500.
\<close>

lemma http_message_invalid: "\<not> schema_valid (strict (http_message e u gid c t md r))"
  by (simp add: schema_valid_def strict_def http_message_def)

lemma create_http_message:
  "create_and_emit e st gid (http_message e u gid c t md r)
     = caught st [] ''Error sending message:'' ''Failed to send message''"
  by (simp add: create_and_emit_def insert_doc_def accepts_def http_message_invalid)

text \<open>
  C8 at concrete requests of member \<open>u1\<close> in group \<open>g1\<close>. With \<open>replyTo = m1\<close>, a stored
  non-deleted message of the group, the handler passes the parent check and
  \<open>Message.create\<close> throws: the answer is 500 and nothing is stored. With
  \<open>replyTo = m2\<close>, a message of another group, the answer is 404 and nothing is stored.
\<close>

theorem post_message_reply_to_parent:
  "findOne ex_store (parent_filter ''m1'' ''g1'') = Some ex_m1
   \<and> post_message ex_env ex_store ex_u1 ''g1'' (Some ''re'') None None (Some ''m1'')
       = caught ex_store [] ''Error sending message:'' ''Failed to send message''
   \<and> out_response (post_message ex_env ex_store ex_u1 ''g1'' (Some ''re'') None None (Some ''m1''))
       = Some (500, ErrorBody ''Failed to send message'')
   \<and> post_message ex_env ex_store ex_u1 ''g1'' (Some ''re'') None None (Some ''m2'')
       = respond ex_store [] 404 (ErrorBody ''Parent message not found'')"
proof -
  have h: "reads_ok ex_env" "findGroup ex_store ''g1'' = Some ex_g1"
    "user_id ex_u1 \<in> set (members ex_g1)"
    "findOne ex_store (parent_filter ''m1'' ''g1'') = Some ex_m1"
    "findOne ex_store (parent_filter ''m2'' ''g1'') = None"
    by (simp_all add: ex_defs findGroup_def findOne_def parent_filter_def)
  then show ?thesis
    by (simp add: post_message_def create_http_message js_string_def caught_def respond_def)
qed

section \<open>Marking a message of another group as read\<close>

text \<open>
  C10. The mark-read handler checks membership in the group of the URL and finds the
  message by id alone. So a member of group \<open>gid\<close> marks a message \<open>m\<close> of another group,
  of which the caller is not a member: the answer is 200, the caller's id is appended
  to the stored \<open>readBy\<close> of \<open>m\<close>, and \<open>messageRead\<close> is broadcast to the room of the URL's
  group, not to the room of the message's group.
\<close>

theorem post_read_cross_group:
  assumes "reads_ok e"
    and "findGroup st gid = Some g" and "user_id u \<in> set (members g)"
    and "findById st mid = Some m" and "group_m m \<noteq> gid"
    and "findGroup st (group_m m) = Some g'" and "user_id u \<notin> set (members g')"
    and "user_id u \<noteq> []" and "user_id u \<notin> set (readBy m)"
    and "accepts e (m\<lparr>readBy := readBy m @ [user_id u]\<rparr>)"
  shows "(let m' = m\<lparr>readBy := readBy m @ [user_id u], updatedAt := now e\<rparr>;
              out = post_read e st u gid mid
          in out_response out = Some (200, SuccessBody)
           \<and> findById (out_store out) mid = Some m'
           \<and> out_effects out = [DbWrite m', Emit gid (MessageRead mid (user_id u))])"
proof -
  let ?m1 = "m\<lparr>readBy := readBy m @ [user_id u]\<rparr>"
  from assms(4) have mem: "m \<in> set (messages st)" and om: "oid m = mid"
    using findOne_Some[of st "\<lambda>m. oid m = mid" m] by (auto simp: findById_def)
  then have ex: "\<exists>x \<in> set (messages st). oid x = oid ?m1" by auto
  note sv = save_accepted[OF assms(10) ex]
  show ?thesis
    using assms(1-4,8,9) sv om
    by (simp add: post_read_def markAsRead_def markAsRead_local_def respond_def Let_def)
qed

theorem post_read_cross_group_witness:
  "(let out = post_read ex_env ex_store ex_u1 ''g1'' ''m2''
    in group_m ex_m2 = ''g2'' \<and> findGroup ex_store ''g2'' = Some ex_g2
     \<and> ''u1'' \<notin> set (members ex_g2)
     \<and> out_response out = Some (200, SuccessBody)
     \<and> findById (out_store out) ''m2''
         = Some (ex_m2\<lparr>readBy := [''u1''], updatedAt := 7\<rparr>)
     \<and> out_effects out = [DbWrite (ex_m2\<lparr>readBy := [''u1''], updatedAt := 7\<rparr>),
                           Emit ''g1'' (MessageRead ''m2'' ''u1'')])"
proof -
  have h: "reads_ok ex_env" "findGroup ex_store ''g1'' = Some ex_g1"
    "user_id ex_u1 \<in> set (members ex_g1)" "findById ex_store ''m2'' = Some ex_m2"
    "group_m ex_m2 \<noteq> ''g1''" "findGroup ex_store (group_m ex_m2) = Some ex_g2"
    "user_id ex_u1 \<notin> set (members ex_g2)" "user_id ex_u1 \<noteq> []"
    "user_id ex_u1 \<notin> set (readBy ex_m2)"
    "accepts ex_env (ex_m2\<lparr>readBy := readBy ex_m2 @ [user_id ex_u1]\<rparr>)"
    by (simp_all add: ex_defs findGroup_def findById_def findOne_def schema_defs)
  have n: "now ex_env = 7" "user_id ex_u1 = ''u1''" "readBy ex_m2 = []"
    "group_m ex_m2 = ''g2''"
    by (simp_all add: ex_defs)
  show ?thesis
    using post_read_cross_group[OF h] h(6,7) n by (simp add: Let_def)
qed

section \<open>Sending a message\<close>

text \<open>
  C4. On both paths the broadcast comes after the write: no effect list has an \<open>Emit\<close>
  before a \<open>DbWrite\<close>; when anything is broadcast, the write of that very message was
  accepted and is the effect just before the broadcast, and the message is in the
  store. When the write is rejected nothing is broadcast and the store is unchanged:
  the socket handler only logs the error, the HTTP handler logs it and answers 500.
  (The write of the HTTP handler is always rejected, by validation.)
\<close>

theorem broadcast_only_after_write:
  "(let doc = strict (http_message e u gid c t md r);
        out = post_message e st u gid c t md r
    in no_emit_before_write (out_effects out)
     \<and> (emits (out_effects out) \<noteq> [] \<longrightarrow>
           accepts e doc
         \<and> out_effects out = [DbWrite doc, Emit gid (NewMessage doc)]
         \<and> messages (out_store out) = messages st @ [doc])
     \<and> (\<not> accepts e doc \<longrightarrow>
           emits (out_effects out) = [] \<and> out_store out = st
         \<and> create_and_emit e st gid (http_message e u gid c t md r)
             = caught st [] ''Error sending message:'' ''Failed to send message'')
     \<and> \<not> accepts e doc)
   \<and> (let doc = strict (socket_message e d);
            out = chat_message e st d
        in no_emit_before_write (out_effects out)
         \<and> (emits (out_effects out) \<noteq> [] \<longrightarrow>
               accepts e doc
             \<and> out_effects out = [DbWrite doc, Emit (p_groupId d) (ChatMessage d (createdAt doc))]
             \<and> messages (out_store out) = messages st @ [doc])
         \<and> (\<not> accepts e doc \<longrightarrow>
               out_effects out = [LogError ''Error saving message:'']
             \<and> out_store out = st \<and> out_response out = None))"
proof -
  have na: "\<not> accepts e (strict (http_message e u gid c t md r))"
    by (simp add: accepts_def http_message_invalid)
  have http: "post_message e st u gid c t md r = out \<Longrightarrow>
      no_emit_before_write (out_effects out) \<and> emits (out_effects out) = []
      \<and> out_store out = st" for out
    by (auto simp: post_message_def create_http_message caught_def respond_def emits_def
          split: option.splits if_splits)
  have sock: "let doc = strict (socket_message e d);
            out = chat_message e st d
        in no_emit_before_write (out_effects out)
         \<and> (emits (out_effects out) \<noteq> [] \<longrightarrow>
               accepts e doc
             \<and> out_effects out = [DbWrite doc, Emit (p_groupId d) (ChatMessage d (createdAt doc))]
             \<and> messages (out_store out) = messages st @ [doc])
         \<and> (\<not> accepts e doc \<longrightarrow>
               out_effects out = [LogError ''Error saving message:'']
             \<and> out_store out = st \<and> out_response out = None)"
    by (simp add: Let_def chat_message_def insert_doc_def emits_def)
  from http[OF refl] na create_http_message[of e st gid u c t md r] sock
  show ?thesis by (simp add: Let_def)
qed

theorem broadcast_only_after_write_witness:
  "emits (out_effects (post_message ex_env ex_store ex_u1 ''g1'' (Some ''hi'') None None None)) = []
   \<and> out_store (post_message ex_env ex_store ex_u1 ''g1'' (Some ''hi'') None None None) = ex_store
   \<and> out_effects (chat_message ex_env_down ex_store ex_payload) = [LogError ''Error saving message:'']
   \<and> out_store (chat_message ex_env_down ex_store ex_payload) = ex_store
   \<and> emits (out_effects (chat_message ex_env ex_store ex_payload)) \<noteq> []
   \<and> out_effects (chat_message ex_env ex_store ex_payload)
       = [DbWrite (socket_message ex_env ex_payload),
          Emit ''g1'' (ChatMessage ex_payload 7)]
   \<and> messages (out_store (chat_message ex_env ex_store ex_payload))
       = [ex_m1, ex_m2, socket_message ex_env ex_payload]"
proof -
  have down: "\<not> accepts ex_env_down m" for m
    by (simp add: ex_defs accepts_def)
  have e2: "emits (out_effects (chat_message ex_env ex_store ex_payload)) \<noteq> []"
    by (simp add: ex_defs chat_message_def insert_doc_def emits_def socket_message_def
          schema_defs)
  have g: "p_groupId ex_payload = ''g1''" "createdAt (socket_message ex_env ex_payload) = 7"
    "strict (socket_message ex_env ex_payload) = socket_message ex_env ex_payload"
    "messages ex_store = [ex_m1, ex_m2]"
    by (simp_all add: ex_defs socket_message_def strict_def)
  show ?thesis
    using broadcast_only_after_write[of ex_env_down ex_u1 "''g1''" "Some ''hi''" None None None
            ex_store ex_payload]
          broadcast_only_after_write[of ex_env ex_u1 "''g1''" "Some ''hi''" None None None
            ex_store ex_payload]
          down e2 g
    by (simp add: Let_def)
qed

text \<open>
  C3 at a concrete \<open>chat message\<close> event. The socket handler builds the document without
  \<open>readBy\<close>, so the message of sender \<open>u1\<close> is stored with an empty \<open>readBy\<close>; the HTTP
  create passes \<open>readBy: [req.user.id]\<close>.
\<close>

theorem chat_message_readBy:
  "messages (out_store (chat_message ex_env ex_store ex_payload))
     = [ex_m1, ex_m2, socket_message ex_env ex_payload]
   \<and> user_m (socket_message ex_env ex_payload)
       = Some \<lparr>cu_id = ''u1'', cu_name = ''Ann'', cu_email = ''a@x''\<rparr>
   \<and> readBy (socket_message ex_env ex_payload) = []
   \<and> readBy (http_message ex_env ex_u1 ''g1'' (Some ''hello'') None None None) = [''u1'']"
  by (simp add: ex_defs chat_message_def insert_doc_def socket_message_def http_message_def
        schema_defs)

section \<open>Listing messages\<close>

text \<open>
  C7 at concrete query strings. An absent, zero or non-numeric parameter gives the
  default, but \<open>parseInt(q) || d\<close> lets a negative number through: \<open>page=-1\<close> is used as
  \<open>-1\<close>, which makes the skip \<open>-100\<close>, and \<open>limit=-5\<close> is used as \<open>-5\<close>.
\<close>

theorem parse_page_negative:
  "parse_page (Some ''-1'') = Fin (- 1)
   \<and> js_skip (parse_page (Some ''-1'')) (parse_limit None) = Fin (- 100)
   \<and> parse_limit (Some ''-5'') = Fin (- 5)"
  by (simp add: parse_defs to_double_exact)

lemma mark_doc_fields [simp]:
  "oid (mark_doc e n m) = oid m" "deleted (mark_doc e n m) = deleted m"
  "group_m (mark_doc e n m) = group_m m" "createdAt (mark_doc e n m) = createdAt m"
  by (simp_all add: mark_doc_def markAsRead_local_def split: option.splits)

lemma mark_doc_explicit:
  "mark_doc e n m =
     (case n of
        None \<Rightarrow> m
      | Some a \<Rightarrow>
          if a \<noteq> [] \<and> a \<notin> set (readBy m)
          then m\<lparr>readBy := readBy m @ [a], updatedAt := now e\<rparr>
          else m)"
  by (simp add: mark_doc_def markAsRead_local_def split: option.splits)

lemma mark_doc_None: "mark_doc e None = (\<lambda>m. m)"
  by (rule ext) (simp add: mark_doc_explicit)

lemma mark_doc_Some:
  "mark_doc e (Some a) =
     (\<lambda>m. if a \<noteq> [] \<and> a \<notin> set (readBy m)
          then m\<lparr>readBy := readBy m @ [a], updatedAt := now e\<rparr> else m)"
  by (rule ext) (simp add: mark_doc_explicit)

lemma includes_name_mark_doc: "includes_name m n \<Longrightarrow> mark_doc e n m = m"
  by (simp add: includes_name_def mark_doc_explicit split: option.splits)

lemma markAsRead_Some:
  "markAsRead e n m st = Some (m', st1, w1) \<Longrightarrow>
     m' = mark_doc e n m \<and> groups st1 = groups st
     \<and> messages st1 =
         (case markAsRead_local n m of
            None \<Rightarrow> messages st
          | Some x \<Rightarrow> replace_doc (mark_doc e n m) (messages st))"
  by (auto simp: markAsRead_def mark_doc_def save_def Let_def split: option.splits if_splits)

lemma mark_all_ok:
  "mark_all e n ms st = (ds, st', w, True) \<Longrightarrow>
     ds = map (mark_doc e n) ms \<and> groups st' = groups st
     \<and> messages st' =
         foldl (\<lambda>acc m. case markAsRead_local n m of
                           None \<Rightarrow> acc
                         | Some x \<Rightarrow> replace_doc (mark_doc e n m) acc) (messages st) ms"
proof (induction ms arbitrary: st ds st' w)
  case Nil
  then show ?case by simp
next
  case (Cons m ms)
  show ?case
  proof (cases "includes_name m n")
    case True
    then have loc: "markAsRead_local n m = None"
      by (auto simp: includes_name_def markAsRead_local_def split: option.splits)
    from True Cons.prems obtain ds0 where
      r: "mark_all e n ms st = (ds0, st', w, True)" and d: "ds = m # ds0"
      by (auto split: prod.splits)
    from Cons.IH[OF r] d True loc show ?thesis
      by (simp add: includes_name_mark_doc)
  next
    case False
    with Cons.prems obtain m' st1 w1 ds0 w0 where
      a: "markAsRead e n m st = Some (m', st1, w1)" and
      r: "mark_all e n ms st1 = (ds0, st', w0, True)" and d: "ds = m' # ds0"
      by (auto split: option.splits prod.splits)
    from markAsRead_Some[OF a] Cons.IH[OF r] d show ?thesis
      by (simp split: option.splits)
  qed
qed

lemma replace_doc_map:
  assumes "distinct (map oid xs)" and "m \<in> set xs" and "oid m' = oid m"
    and "\<And>x. oid (f x) = oid x" and "f m = m"
  shows "replace_doc m' (map f xs) = map (\<lambda>x. if x = m then m' else f x) xs"
proof -
  have "(oid x = oid m) = (x = m)" if "x \<in> set xs" for x
    using assms(1,2) that by (auto simp: distinct_map dest: inj_onD)
  then show ?thesis
    using assms(3,4) by (auto simp: replace_doc_def)
qed

lemma apply_marks:
  fixes e :: env and n :: "string option"
  assumes "distinct (map oid xs)" and "set ms \<subseteq> set xs" and "distinct ms"
  shows "foldl (\<lambda>acc m. case markAsRead_local n m of
                           None \<Rightarrow> acc
                         | Some x \<Rightarrow> replace_doc (mark_doc e n m) acc) xs ms
         = map (\<lambda>x. if x \<in> set ms then mark_doc e n x else x) xs"
  using assms(2,3)
proof (induction ms rule: rev_induct)
  case Nil
  then show ?case by simp
next
  case (snoc m ms)
  let ?f = "\<lambda>x. if x \<in> set ms then mark_doc e n x else x"
  from snoc.prems have m: "m \<in> set xs" "m \<notin> set ms" and sub: "set ms \<subseteq> set xs" "distinct ms"
    by auto
  note IH = snoc.IH[OF sub]
  show ?case
  proof (cases "markAsRead_local n m")
    case None
    then have "mark_doc e n m = m" by (simp add: mark_doc_def)
    with None IH show ?thesis by (auto intro!: map_cong)
  next
    case (Some x)
    have "replace_doc (mark_doc e n m) (map ?f xs)
            = map (\<lambda>x. if x = m then mark_doc e n m else ?f x) xs"
      using assms(1) m by (intro replace_doc_map) auto
    with Some IH show ?thesis by (auto intro!: map_cong)
  qed
qed

lemma mark_all_unnamed: "mark_all e None ms st = (ms, st, [], True)"
  by (induction ms) (simp_all add: includes_name_def markAsRead_def markAsRead_local_def)


lemma get_messages_200:
  assumes "out_response (get_messages e st u gid qp ql) = Some (200, b)"
  shows "\<exists>g ms ds st' w.
           reads_ok e \<and> findGroup st gid = Some g \<and> user_id u \<in> set (members g)
         \<and> find_page st gid (js_skip (parse_page qp) (parse_limit ql)) (parse_limit ql) = Some ms
         \<and> mark_all e (user_name u) ms st = (ds, st', w, True)
         \<and> get_messages e st u gid qp ql =
               respond st' w 200
                 (ListBody ds \<lparr>total = countDocuments st gid, page = parse_page qp,
                    pages = js_ceil_quot (countDocuments st gid) (parse_limit ql),
                    limit = parse_limit ql\<rparr>)"
  using assms
  by (auto simp: get_messages_def Let_def caught_def respond_def
        split: if_splits option.splits prod.splits)


lemma get_messages_unnamed_store:
  "user_name u = None \<Longrightarrow> out_store (get_messages e st u gid qp ql) = st"
  by (simp add: get_messages_def Let_def mark_all_unnamed caught_def respond_def
        split: option.splits)





text \<open>
  C9 at a concrete request. \<open>u3\<close>, a member of \<open>g1\<close>, lists the group with a token of
  the login route, which has no \<open>name\<close>. The unread message \<open>m1\<close> is returned, and
  nothing is written: \<open>markAsRead(req.user.name)\<close> is \<open>markAsRead(undefined)\<close>, which the
  guard stops. The handler's comment is "Mark messages as read for the current user".
\<close>

theorem get_messages_login_token:
  "user_name (login_token_payload ''u3'' ''user'') = None
   \<and> ''u3'' \<in> set (members ex_g1) \<and> findGroup ex_store ''g1'' = Some ex_g1
   \<and> readBy ex_m1 = []
   \<and> out_response (get_messages ex_env ex_store (login_token_payload ''u3'' ''user'') ''g1'' None None)
       = Some (200, ListBody [ex_m1] \<lparr>total = 1, page = Fin 1, pages = Fin 1, limit = Fin 50\<rparr>)
   \<and> out_store (get_messages ex_env ex_store (login_token_payload ''u3'' ''user'') ''g1'' None None)
       = ex_store
   \<and> out_effects (get_messages ex_env ex_store (login_token_payload ''u3'' ''user'') ''g1'' None None)
       = []"
proof -
  have p: "parse_page None = Fin 1" "parse_limit None = Fin 50"
    by (simp_all add: parse_page_def parse_limit_def parse_or_default)
  have sk: "js_skip (Fin 1) (Fin 50) = Fin 0"
    using js_skip_exact(1)[of 1 50] by simp
  show ?thesis
    by (simp add: get_messages_def p sk ex_defs findGroup_def find_page_def visible_in_def
          countDocuments_def js_ceil_quot_def ceil_div_def includes_name_def markAsRead_def
          markAsRead_local_def respond_def Let_def)
qed

text \<open>
  What the marking does for a request that does carry a name: exactly the returned
  messages that lack it get it appended, with \<open>updatedAt\<close> stamped.
\<close>

lemma find_page_sub:
  assumes "find_page st gid sk lim = Some ms" and "distinct (map oid (messages st))"
  shows "set ms \<subseteq> set (messages st) \<and> distinct ms"
proof -
  let ?vis = "sort_key createdAt (filter (visible_in gid) (messages st))"
  have "distinct (messages st)" using assms(2) by (simp add: distinct_map)
  then have dv: "distinct ?vis" by simp
  have vs: "set ?vis \<subseteq> set (messages st)" by auto
  from assms(1) consider s where "ms = drop s ?vis" | k s where "ms = take k (drop s ?vis)"
    by (auto simp: find_page_def Let_def split: number.splits if_splits)
  then show ?thesis
  proof cases
    case 1
    have "set ms \<subseteq> set ?vis" unfolding 1 by (rule set_drop_subset)
    with vs dv 1 show ?thesis by (simp add: subset_trans)
  next
    case 2
    have "set ms \<subseteq> set ?vis"
      unfolding 2 by (meson set_take_subset set_drop_subset subset_trans)
    with vs dv 2 show ?thesis by (simp add: subset_trans)
  qed
qed

lemma get_messages_marks_read:
  assumes "out_response (get_messages e st u gid qp ql) = Some (200, ListBody ds pgn)"
    and "distinct (map oid (messages st))"
  shows "(let out = get_messages e st u gid qp ql
          in \<exists>ms. find_page st gid (js_skip (parse_page qp) (parse_limit ql)) (parse_limit ql)
                     = Some ms
                \<and> groups (out_store out) = groups st
                \<and> (case user_name u of
                      None \<Rightarrow> ds = ms \<and> out_store out = st
                    | Some n \<Rightarrow>
                        ds = map (\<lambda>x. if n \<noteq> [] \<and> n \<notin> set (readBy x)
                                       then x\<lparr>readBy := readBy x @ [n], updatedAt := now e\<rparr>
                                       else x) ms
                      \<and> messages (out_store out)
                          = map (\<lambda>x. if x \<in> set ms \<and> n \<noteq> [] \<and> n \<notin> set (readBy x)
                                       then x\<lparr>readBy := readBy x @ [n], updatedAt := now e\<rparr>
                                       else x) (messages st)))"
proof -
  from get_messages_200[OF assms(1)] obtain ms ds' st' w where
    fp: "find_page st gid (js_skip (parse_page qp) (parse_limit ql)) (parse_limit ql) = Some ms" and
    ma: "mark_all e (user_name u) ms st = (ds', st', w, True)" and
    gm: "get_messages e st u gid qp ql =
           respond st' w 200
             (ListBody ds' \<lparr>total = countDocuments st gid, page = parse_page qp,
                pages = js_ceil_quot (countDocuments st gid) (parse_limit ql),
                limit = parse_limit ql\<rparr>)"
    by blast
  from gm assms(1) have ds: "ds' = ds" and st': "out_store (get_messages e st u gid qp ql) = st'"
    by (simp_all add: respond_def)
  note sub = find_page_sub[OF fp assms(2)]
  from mark_all_ok[OF ma] ds
  have d: "ds = map (mark_doc e (user_name u)) ms" and g: "groups st' = groups st"
    and m: "messages st' = map (\<lambda>x. if x \<in> set ms then mark_doc e (user_name u) x else x) (messages st)"
    using apply_marks[OF assms(2), where ms = ms and n = "user_name u" and e = e] sub by simp_all
  show ?thesis
  proof (cases "user_name u")
    case None
    from d m have "ds = ms" "messages st' = messages st"
      unfolding None mark_doc_None by simp_all
    with g have "ds = ms \<and> st' = st" by simp
    with fp g None st' show ?thesis by (auto simp: Let_def)
  next
    case (Some n)
    from d[unfolded Some mark_doc_Some] have d': "ds = map (\<lambda>x. if n \<noteq> [] \<and> n \<notin> set (readBy x)
                                       then x\<lparr>readBy := readBy x @ [n], updatedAt := now e\<rparr>
                                       else x) ms"
      by simp
    from m[unfolded Some mark_doc_Some] have m': "messages st' = map (\<lambda>x. if x \<in> set ms \<and> n \<noteq> [] \<and> n \<notin> set (readBy x)
                                       then x\<lparr>readBy := readBy x @ [n], updatedAt := now e\<rparr>
                                       else x) (messages st)"
      by (auto intro!: map_cong)
    from fp g Some st' d' m' show ?thesis by (auto simp: Let_def)
  qed
qed

end
